theory Spec2Isabelle
  imports Main
begin

section \<open>mdformat configuration resolver (\<^verbatim>\<open>src/mdformat/_conf.py\<close>)\<close>

subsection \<open>Paths\<close>

text \<open>
  A \<^verbatim>\<open>pathlib.Path\<close> is its drive, its root and the list of its remaining components
  (\<^verbatim>\<open>/a/b\<close> has root \<^verbatim>\<open>/\<close> and tail \<^verbatim>\<open>a\<close>, \<^verbatim>\<open>b\<close>; the relative path \<^verbatim>\<open>.\<close> has an empty
  root and an empty tail). Two paths are equal when these agree, which is the
  comparison of the POSIX flavour.
\<close>

record path =
  drive :: string
  root :: string
  tail :: "string list"

text \<open>\<^verbatim>\<open>Path.parent\<close>: a path without components is its own parent, any other path loses
  its last component.\<close>

definition parent :: "path \<Rightarrow> path" where
  "parent p = (if tail p = [] then p else p\<lparr>tail := butlast (tail p)\<rparr>)"

text \<open>\<^verbatim>\<open>conf_dir / name\<close> for a single relative component.\<close>

definition joinpath :: "path \<Rightarrow> string \<Rightarrow> path" where
  "joinpath p name = p\<lparr>tail := tail p @ [name]\<rparr>"

subsection \<open>Parsed TOML\<close>

text \<open>
  The values \<^verbatim>\<open>tomllib.load\<close> produces. No rule of this module looks inside a float or
  a date, so both keep their source text. A table is a Python \<^verbatim>\<open>dict\<close>: string keys in
  insertion order.
\<close>

datatype toml_value =
    TStr string
  | TInt int
  | TFloat string
  | TBool bool
  | TDatetime string
  | TArray "toml_value list"
  | TTable "(string \<times> toml_value) list"

type_synonym table = "(string \<times> toml_value) list"

type_synonym bytes = string

text \<open>The parser is outside this module (\<^verbatim>\<open>mdformat._compat.tomllib\<close>): it returns the
  table of a document or the message of a \<^verbatim>\<open>TOMLDecodeError\<close>.\<close>

type_synonym parser = "bytes \<Rightarrow> string + table"

text \<open>The file system as the module observes it: the contents of the regular file at a
  path, if there is one, so \<^verbatim>\<open>conf_path.is_file()\<close> is false exactly at \<open>None\<close>. Failures
  of the operating system while reading are not part of the model.\<close>

type_synonym filesystem = "path \<Rightarrow> bytes option"

definition is_file :: "filesystem \<Rightarrow> path \<Rightarrow> bool" where
  "is_file fs p = (fs p \<noteq> None)"

subsection \<open>Errors\<close>

text \<open>
  The three messages with which the module raises \<^verbatim>\<open>InvalidConfError\<close>, each with the
  values its f-string interpolates. The key message prints \<^verbatim>\<open>set(DEFAULT_OPTS)\<close>, whose
  order of printing Python does not fix, so the message carries the set.
\<close>

datatype conf_message =
    Invalid_TOML_syntax string
  | Invalid_key string path "string set"
  | Invalid_value string path

datatype error =
    InvalidConfError conf_message
  | TypeError string

subsection \<open>The option schema\<close>

definition DEFAULT_OPTS :: table where
  "DEFAULT_OPTS =
    [(''wrap'', TStr ''keep''),
     (''number'', TBool False),
     (''end_of_line'', TStr ''lf''),
     (''primary_bullet_list_marker'', TStr ''-''),
     (''secondary_bullet_list_marker'', TStr ''*''),
     (''primary_ordered_list_marker'', TStr ''.''),
     (''secondary_ordered_list_marker'', TStr '')''),
     (''thematic_break_character'', TStr ''_''),
     (''thematic_break_width'', TInt 70),
     (''escape_square_brackets'', TBool True),
     (''entity_substitution'', TBool True)]"

definition recognized_keys :: "string list" where
  "recognized_keys = map fst DEFAULT_OPTS"

subsection \<open>Python's operators on TOML values\<close>

text \<open>\<^verbatim>\<open>isinstance(v, int)\<close>: \<^verbatim>\<open>bool\<close> is a subclass of \<^verbatim>\<open>int\<close>.\<close>

fun isinstance_int :: "toml_value \<Rightarrow> bool" where
  "isinstance_int (TInt _) = True"
| "isinstance_int (TBool _) = True"
| "isinstance_int _ = False"

fun isinstance_bool :: "toml_value \<Rightarrow> bool" where
  "isinstance_bool (TBool _) = True"
| "isinstance_bool _ = False"

text \<open>\<^verbatim>\<open>v > 1\<close> for a value that is an \<^verbatim>\<open>int\<close>: \<^verbatim>\<open>True\<close> counts as 1 and \<^verbatim>\<open>False\<close> as 0.
  The module evaluates it only behind \<^verbatim>\<open>isinstance(v, int)\<close>.\<close>

fun int_gt_1 :: "toml_value \<Rightarrow> bool" where
  "int_gt_1 (TInt n) = (n > 1)"
| "int_gt_1 _ = False"

text \<open>\<^verbatim>\<open>v in {s1, s2, ...}\<close> for a set of strings: membership hashes \<^verbatim>\<open>v\<close> first, and a
  \<^verbatim>\<open>list\<close> or a \<^verbatim>\<open>dict\<close> has no hash. The message of the \<^verbatim>\<open>TypeError\<close> is kept
  without the quotation marks around the type name.\<close>

fun in_str_set :: "toml_value \<Rightarrow> string list \<Rightarrow> error + bool" where
  "in_str_set (TStr s) strs = Inr (s \<in> set strs)"
| "in_str_set (TArray _) strs = Inl (TypeError ''unhashable type: list'')"
| "in_str_set (TTable _) strs = Inl (TypeError ''unhashable type: dict'')"
| "in_str_set _ strs = Inr False"

subsection \<open>Validation\<close>

text \<open>Statements in sequence: the first exception ends the function.\<close>

definition and_then :: "error + unit \<Rightarrow> error + unit \<Rightarrow> error + unit" where
  "and_then r k = (case r of Inl e \<Rightarrow> Inl e | Inr _ \<Rightarrow> k)"

text \<open>\<^verbatim>\<open>if "key" in opts and opts["key"] not in {...}: raise InvalidConfError(...)\<close>\<close>

definition require_in :: "table \<Rightarrow> string \<Rightarrow> string list \<Rightarrow> path \<Rightarrow> error + unit" where
  "require_in opts key strs conf_path =
    (case map_of opts key of
       None \<Rightarrow> Inr ()
     | Some v \<Rightarrow>
         (case in_str_set v strs of
            Inl e \<Rightarrow> Inl e
          | Inr found \<Rightarrow>
              if \<not> found then Inl (InvalidConfError (Invalid_value key conf_path))
              else Inr ()))"

definition validate_values :: "table \<Rightarrow> path \<Rightarrow> error + unit" where
  "validate_values opts conf_path =
    and_then
      (case map_of opts ''wrap'' of
         None \<Rightarrow> Inr ()
       | Some wrap_value \<Rightarrow>
           if isinstance_int wrap_value \<and> int_gt_1 wrap_value then Inr ()
           else (case in_str_set wrap_value [''keep'', ''no''] of
                   Inl e \<Rightarrow> Inl e
                 | Inr found \<Rightarrow>
                     if \<not> found then Inl (InvalidConfError (Invalid_value ''wrap'' conf_path))
                     else Inr ()))
   (and_then (require_in opts ''end_of_line'' [''crlf'', ''lf'', ''keep''] conf_path)
   (and_then
      (case map_of opts ''number'' of
         None \<Rightarrow> Inr ()
       | Some v \<Rightarrow>
           if \<not> isinstance_bool v
           then Inl (InvalidConfError (Invalid_value ''number'' conf_path))
           else Inr ())
   (and_then
      (require_in opts ''primary_bullet_list_marker'' [''*'', ''+'', ''-''] conf_path)
      (require_in opts ''secondary_bullet_list_marker'' [''*'', ''+'', ''-''] conf_path))))"

fun validate_keys_loop :: "string list \<Rightarrow> path \<Rightarrow> error + unit" where
  "validate_keys_loop [] conf_path = Inr ()"
| "validate_keys_loop (key # keys) conf_path =
    (if key \<notin> set recognized_keys
     then Inl (InvalidConfError (Invalid_key key conf_path (set recognized_keys)))
     else validate_keys_loop keys conf_path)"

definition validate_keys :: "table \<Rightarrow> path \<Rightarrow> error + unit" where
  "validate_keys opts conf_path = validate_keys_loop (map fst opts) conf_path"

subsection \<open>The resolver and its cache\<close>

text \<open>
  \<^verbatim>\<open>functools.lru_cache()\<close> keeps the results of the last \<^verbatim>\<open>maxsize\<close> distinct
  arguments, most recently used first. A call that raises stores nothing.
\<close>

type_synonym cache = "(path \<times> table) list"

definition maxsize :: nat where
  "maxsize = 128"

text \<open>A hit moves the entry to the front.\<close>

definition cache_hit :: "path \<Rightarrow> table \<Rightarrow> cache \<Rightarrow> cache" where
  "cache_hit key result c = (key, result) # filter (\<lambda>e. fst e \<noteq> key) c"

text \<open>After a miss the result is stored, unless the key arrived in the meantime; a full
  cache drops its least recently used entry.\<close>

definition cache_store :: "path \<Rightarrow> table \<Rightarrow> cache \<Rightarrow> cache" where
  "cache_store key result c =
    (if map_of c key \<noteq> None then c
     else if length c \<ge> maxsize then (key, result) # butlast c
     else (key, result) # c)"

definition returning :: "path \<Rightarrow> (error + table) \<times> cache \<Rightarrow> (error + table) \<times> cache" where
  "returning key rc =
    (case fst rc of
       Inl e \<Rightarrow> (Inl e, snd rc)
     | Inr result \<Rightarrow> (Inr result, cache_store key result (snd rc)))"

function read_toml_opts ::
  "parser \<Rightarrow> filesystem \<Rightarrow> cache \<Rightarrow> path \<Rightarrow> (error + table) \<times> cache" where
  "read_toml_opts parse fs c conf_dir =
    (case map_of c conf_dir of
       Some result \<Rightarrow> (Inr result, cache_hit conf_dir result c)
     | None \<Rightarrow>
        (let conf_path = joinpath conf_dir ''.mdformat.toml'' in
         case fs conf_path of
           None \<Rightarrow>
             (let parent_dir = parent conf_dir in
              if conf_dir = parent_dir then returning conf_dir (Inr [], c)
              else returning conf_dir (read_toml_opts parse fs c parent_dir))
         | Some content \<Rightarrow>
             (case parse content of
                Inl e \<Rightarrow> (Inl (InvalidConfError (Invalid_TOML_syntax e)), c)
              | Inr toml_opts \<Rightarrow>
                 (case validate_keys toml_opts conf_path of
                    Inl e \<Rightarrow> (Inl e, c)
                  | Inr _ \<Rightarrow>
                     (case validate_values toml_opts conf_path of
                        Inl e \<Rightarrow> (Inl e, c)
                      | Inr _ \<Rightarrow> returning conf_dir (Inr toml_opts, c))))))"
  by pat_completeness auto
termination
  by (relation "measure (\<lambda>(parse, fs, c, conf_dir). length (tail conf_dir))")
     (auto simp: parent_def split: if_splits)

declare read_toml_opts.simps [simp del]


text \<open>The same function with a bound on the depth of its recursion: \<open>None\<close> when the
  bound is used up before the walk ends.\<close>

fun read_toml_opts_bounded ::
  "nat \<Rightarrow> parser \<Rightarrow> filesystem \<Rightarrow> cache \<Rightarrow> path \<Rightarrow> ((error + table) \<times> cache) option" where
  "read_toml_opts_bounded 0 parse fs c conf_dir = None"
| "read_toml_opts_bounded (Suc depth) parse fs c conf_dir =
    (case map_of c conf_dir of
       Some result \<Rightarrow> Some (Inr result, cache_hit conf_dir result c)
     | None \<Rightarrow>
        (let conf_path = joinpath conf_dir ''.mdformat.toml'' in
         case fs conf_path of
           None \<Rightarrow>
             (let parent_dir = parent conf_dir in
              if conf_dir = parent_dir then Some (returning conf_dir (Inr [], c))
              else map_option (returning conf_dir)
                     (read_toml_opts_bounded depth parse fs c parent_dir))
         | Some content \<Rightarrow>
             (case parse content of
                Inl e \<Rightarrow> Some (Inl (InvalidConfError (Invalid_TOML_syntax e)), c)
              | Inr toml_opts \<Rightarrow>
                 (case validate_keys toml_opts conf_path of
                    Inl e \<Rightarrow> Some (Inl e, c)
                  | Inr _ \<Rightarrow>
                     (case validate_values toml_opts conf_path of
                        Inl e \<Rightarrow> Some (Inl e, c)
                      | Inr _ \<Rightarrow> Some (returning conf_dir (Inr toml_opts, c)))))))"

subsection \<open>Vocabulary of the specification\<close>

definition conf_file :: "path \<Rightarrow> path" where
  "conf_file d = joinpath d ''.mdformat.toml''"

text \<open>The ancestor chain of a directory: itself, its parent, and so on up to the
  directory that is its own parent.\<close>

function ancestors :: "path \<Rightarrow> path list" where
  "ancestors d = (if parent d = d then [d] else d # ancestors (parent d))"
  by pat_completeness auto
termination
  by (relation "measure (\<lambda>d. length (tail d))") (auto simp: parent_def split: if_splits)

declare ancestors.simps [simp del]

text \<open>The nearest directory of the chain that holds a configuration file.\<close>

definition nearest :: "filesystem \<Rightarrow> path \<Rightarrow> path option" where
  "nearest fs d = find (\<lambda>a. is_file fs (conf_file a)) (ancestors d)"

text \<open>A cache agrees with a file system when each of its entries is what a call with an
  empty cache returns there. The empty cache of a new process does, and so does every
  cache that calls on an unchanged file system leave behind.\<close>

definition cache_ok :: "parser \<Rightarrow> filesystem \<Rightarrow> cache \<Rightarrow> bool" where
  "cache_ok parse fs c =
     list_all (\<lambda>e. fst (read_toml_opts parse fs [] (fst e)) = Inr (snd e)) c"

text \<open>The enforced rules of the schema, in the words of the specification.\<close>

fun spec_wrap_valid :: "toml_value \<Rightarrow> bool" where
  "spec_wrap_valid (TInt n) = (n > 1)"
| "spec_wrap_valid (TStr s) = (s = ''keep'' \<or> s = ''no'')"
| "spec_wrap_valid _ = False"

fun spec_one_of :: "string list \<Rightarrow> toml_value \<Rightarrow> bool" where
  "spec_one_of strs (TStr s) = (s \<in> set strs)"
| "spec_one_of strs _ = False"

fun spec_genuine_bool :: "toml_value \<Rightarrow> bool" where
  "spec_genuine_bool (TBool _) = True"
| "spec_genuine_bool _ = False"

definition holds_at :: "table \<Rightarrow> string \<Rightarrow> (toml_value \<Rightarrow> bool) \<Rightarrow> bool" where
  "holds_at opts key rule = (case map_of opts key of None \<Rightarrow> True | Some v \<Rightarrow> rule v)"

definition spec_conformant :: "table \<Rightarrow> bool" where
  "spec_conformant opts =
    (holds_at opts ''wrap'' spec_wrap_valid \<and>
     holds_at opts ''end_of_line'' (spec_one_of [''crlf'', ''lf'', ''keep'']) \<and>
     holds_at opts ''number'' spec_genuine_bool \<and>
     holds_at opts ''primary_bullet_list_marker'' (spec_one_of [''*'', ''+'', ''-'']) \<and>
     holds_at opts ''secondary_bullet_list_marker'' (spec_one_of [''*'', ''+'', ''-'']))"

text \<open>The keys with an enforced rule, the keys without one, and the values Python can
  hash.\<close>

definition enforced_keys :: "string list" where
  "enforced_keys =
    [''wrap'', ''end_of_line'', ''number'',
     ''primary_bullet_list_marker'', ''secondary_bullet_list_marker'']"

definition unenforced_keys :: "string list" where
  "unenforced_keys =
    [''primary_ordered_list_marker'', ''secondary_ordered_list_marker'',
     ''thematic_break_character'', ''thematic_break_width'',
     ''escape_square_brackets'', ''entity_substitution'']"

fun hashable :: "toml_value \<Rightarrow> bool" where
  "hashable (TArray _) = False"
| "hashable (TTable _) = False"
| "hashable _ = True"

subsection \<open>Sample inputs\<close>

text \<open>A parser that knows a few one-line documents, with the tables TOML gives them,
  and reports a syntax error on every other input.\<close>

definition sample_documents :: "(bytes \<times> table) list" where
  "sample_documents =
    [(''wrap = 2'', [(''wrap'', TInt 2)]),
     (''wrap = 1'', [(''wrap'', TInt 1)]),
     (''wrap = []'', [(''wrap'', TArray [])]),
     (''color = 1'', [(''color'', TInt 1)]),
     (''number = true'', [(''number'', TBool True)]),
     (''end_of_line = {}'', [(''end_of_line'', TTable [])]),
     (''secondary_bullet_list_marker = []'', [(''secondary_bullet_list_marker'', TArray [])]),
     (''thematic_break_width = []'', [(''thematic_break_width'', TArray [])])]"

definition sample_parse :: parser where
  "sample_parse doc =
    (case map_of sample_documents doc of
       Some t \<Rightarrow> Inr t
     | None \<Rightarrow> Inl ''Invalid statement (at line 1, column 1)'')"

definition only_file :: "path \<Rightarrow> bytes \<Rightarrow> filesystem" where
  "only_file p content = Map.empty(p \<mapsto> content)"

definition posix :: "string list \<Rightarrow> path" where
  "posix components = \<lparr>drive = [], root = ''/'', tail = components\<rparr>"

section \<open>Properties\<close>

subsection \<open>The cache and the file system\<close>

lemma fst_returning [simp]: "fst (returning k rc) = fst rc"
  by (simp add: returning_def split: sum.splits)

lemma cache_ok_lookup:
  assumes "cache_ok parse fs c" and "map_of c k = Some r"
  shows "fst (read_toml_opts parse fs [] k) = Inr r"
proof -
  from assms(2) have "(k, r) \<in> set c" by (rule map_of_SomeD)
  with assms(1) show ?thesis by (auto simp: cache_ok_def list_all_iff)
qed

lemma cache_ok_hit:
  "cache_ok parse fs c \<Longrightarrow> map_of c k = Some r \<Longrightarrow> cache_ok parse fs (cache_hit k r c)"
  using cache_ok_lookup [of parse fs c k r]
  by (auto simp: cache_ok_def cache_hit_def list_all_iff)

lemma cache_ok_store:
  "cache_ok parse fs c \<Longrightarrow> fst (read_toml_opts parse fs [] k) = Inr r \<Longrightarrow>
   cache_ok parse fs (cache_store k r c)"
  by (auto simp: cache_ok_def cache_store_def list_all_iff dest: in_set_butlastD)

lemma cache_ok_returning:
  "cache_ok parse fs (snd rc) \<Longrightarrow> fst (read_toml_opts parse fs [] k) = fst rc \<Longrightarrow>
   cache_ok parse fs (snd (returning k rc))"
  by (auto simp: returning_def cache_ok_store split: sum.splits)

lemma read_consistent:
  "cache_ok parse fs c \<Longrightarrow>
   fst (read_toml_opts parse fs c d) = fst (read_toml_opts parse fs [] d) \<and>
   cache_ok parse fs (snd (read_toml_opts parse fs c d))"
proof (induction parse fs c d rule: read_toml_opts.induct)
  case (1 parse fs c conf_dir)
  show ?case
  proof (cases "map_of c conf_dir")
    case (Some r)
    with "1.prems" show ?thesis
      by (simp add: read_toml_opts.simps [of parse fs c conf_dir] cache_ok_hit cache_ok_lookup)
  next
    case None
    show ?thesis
    proof (cases "fs (joinpath conf_dir ''.mdformat.toml'')")
      case (Some content)
      with None "1.prems" show ?thesis
        by (auto simp: read_toml_opts.simps [of parse fs _ conf_dir] Let_def
            intro!: cache_ok_returning split: sum.splits)
    next
      case nofile: None
      show ?thesis
      proof (cases "conf_dir = parent conf_dir")
        case True
        with None nofile "1.prems" show ?thesis
          apply (simp add: read_toml_opts.simps [of parse fs _ conf_dir] Let_def)
          apply (rule cache_ok_returning)
          apply (simp_all add: read_toml_opts.simps [of parse fs _ conf_dir] Let_def)
          done
      next
        case False
        from "1.IH" [OF None refl nofile refl False "1.prems"]
        have ih: "fst (read_toml_opts parse fs c (parent conf_dir)) =
                  fst (read_toml_opts parse fs [] (parent conf_dir))"
          and ok: "cache_ok parse fs (snd (read_toml_opts parse fs c (parent conf_dir)))"
          by simp_all
        from None nofile False ih ok show ?thesis
          apply (simp add: read_toml_opts.simps [of parse fs _ conf_dir] Let_def)
          apply (rule cache_ok_returning)
          apply (simp_all add: read_toml_opts.simps [of parse fs _ conf_dir] Let_def)
          done
      qed
    qed
  qed
qed


lemma read_fresh_file:
  assumes "fs (conf_file a) = Some content"
  shows "fst (read_toml_opts parse fs [] a) =
    (case parse content of
       Inl e \<Rightarrow> Inl (InvalidConfError (Invalid_TOML_syntax e))
     | Inr opts \<Rightarrow>
        (case validate_keys opts (conf_file a) of
           Inl e \<Rightarrow> Inl e
         | Inr _ \<Rightarrow>
            (case validate_values opts (conf_file a) of
               Inl e \<Rightarrow> Inl e
             | Inr _ \<Rightarrow> Inr opts)))"
  using assms
  by (simp add: read_toml_opts.simps [of parse fs "[]" a] conf_file_def split: sum.splits)

lemma read_fresh_root:
  assumes "fs (conf_file d) = None" and "parent d = d"
  shows "fst (read_toml_opts parse fs [] d) = Inr []"
  using assms
  by (simp add: read_toml_opts.simps [of parse fs "[]" d] conf_file_def)

lemma read_fresh_step:
  assumes "fs (conf_file d) = None" and "parent d \<noteq> d"
  shows "fst (read_toml_opts parse fs [] d) = fst (read_toml_opts parse fs [] (parent d))"
  using assms
  by (simp add: read_toml_opts.simps [of parse fs "[]" d] conf_file_def)

lemma nearest_unfold:
  "nearest fs d =
    (if fs (conf_file d) \<noteq> None then Some d
     else if parent d = d then None
     else nearest fs (parent d))"
  by (simp add: nearest_def ancestors.simps [of d] is_file_def)

lemma read_fresh_none:
  "nearest fs d = None \<Longrightarrow> fst (read_toml_opts parse fs [] d) = Inr []"
proof (induction d rule: ancestors.induct)
  case (1 d)
  from "1.prems" have here: "fs (conf_file d) = None"
    by (subst (asm) nearest_unfold) (simp split: if_splits)
  show ?case
  proof (cases "parent d = d")
    case True
    with here show ?thesis by (rule read_fresh_root)
  next
    case False
    with "1.prems" here have up: "nearest fs (parent d) = None"
      by (subst (asm) nearest_unfold) simp
    from "1.IH" [OF False up] here False show ?thesis
      by (simp add: read_fresh_step)
  qed
qed

lemma read_fresh_nearest:
  "nearest fs d = Some a \<Longrightarrow>
   fst (read_toml_opts parse fs [] d) = fst (read_toml_opts parse fs [] a)"
proof (induction d rule: ancestors.induct)
  case (1 d)
  show ?case
  proof (cases "fs (conf_file d)")
    case (Some content)
    with "1.prems" have "a = d"
      by (subst (asm) nearest_unfold) simp
    then show ?thesis by simp
  next
    case None
    with "1.prems" have notroot: "parent d \<noteq> d" and up: "nearest fs (parent d) = Some a"
      by (subst (asm) nearest_unfold, simp split: if_splits)+
    from "1.IH" [OF notroot up] None notroot show ?thesis
      by (simp add: read_fresh_step)
  qed
qed

lemma nearest_is_file: "nearest fs d = Some a \<Longrightarrow> is_file fs (conf_file a)"
  by (auto simp: nearest_def dest: find_Some_iff [THEN iffD1])

lemma nearest_in_ancestors: "nearest fs d = Some a \<Longrightarrow> a \<in> set (ancestors d)"
  by (auto simp: nearest_def find_Some_iff)

lemma validate_keys_loop_ok:
  "set keys \<subseteq> set recognized_keys \<Longrightarrow> validate_keys_loop keys p = Inr ()"
  by (induction keys) auto

lemma validate_keys_loop_first:
  "find (\<lambda>k. k \<notin> set recognized_keys) keys = Some k \<Longrightarrow>
   validate_keys_loop keys p = Inl (InvalidConfError (Invalid_key k p (set recognized_keys)))"
  by (induction keys) (auto split: if_splits)


lemma resolve_via_nearest:
  assumes "cache_ok parse fs c" and "nearest fs d = Some a"
  shows "fst (read_toml_opts parse fs c d) = fst (read_toml_opts parse fs [] a)"
  using read_consistent [OF assms(1), of d] read_fresh_nearest [OF assms(2), of parse]
  by simp

lemma nearest_None_iff:
  "nearest fs d = None \<longleftrightarrow> (\<forall>a\<in>set (ancestors d). \<not> is_file fs (conf_file a))"
  by (auto simp: nearest_def find_None_iff)

subsection \<open>What a successful call leaves in the cache\<close>

lemma map_of_filter_other:
  "k \<noteq> a \<Longrightarrow> map_of (filter (\<lambda>e. fst e \<noteq> a) c) k = map_of c k"
  by (induction c) auto

lemma map_of_butlast_None: "map_of c k = None \<Longrightarrow> map_of (butlast c) k = None"
  by (auto simp: map_of_eq_None_iff dest: in_set_butlastD)

lemma cache_store_other:
  "k \<noteq> a \<Longrightarrow> map_of c k = None \<Longrightarrow> map_of (cache_store a r c) k = None"
  by (simp add: cache_store_def map_of_butlast_None)

lemma returning_other:
  "k \<noteq> a \<Longrightarrow> map_of (snd rc) k = None \<Longrightarrow> map_of (snd (returning a rc)) k = None"
  by (simp add: returning_def cache_store_other split: sum.splits)

lemma cache_store_fresh:
  "map_of c k = None \<Longrightarrow> map_of (cache_store k r c) k = Some r"
  by (simp add: cache_store_def)

lemma deeper_key_untouched:
  "map_of c k = None \<Longrightarrow> length (tail a) < length (tail k) \<Longrightarrow>
   map_of (snd (read_toml_opts parse fs c a)) k = None"
proof (induction parse fs c a rule: read_toml_opts.induct)
  case (1 parse fs c conf_dir)
  from "1.prems"(2) have ne: "k \<noteq> conf_dir" by auto
  show ?case
  proof (cases "map_of c conf_dir")
    case (Some r)
    with "1.prems" ne show ?thesis
      by (simp add: read_toml_opts.simps [of parse fs c conf_dir] Let_def cache_hit_def
          map_of_filter_other)
  next
    case None
    show ?thesis
    proof (cases "fs (joinpath conf_dir ''.mdformat.toml'')")
      case (Some content)
      with None "1.prems" ne show ?thesis
        by (simp add: read_toml_opts.simps [of parse fs c conf_dir] Let_def returning_other
            split: sum.splits)
    next
      case nofile: None
      show ?thesis
      proof (cases "conf_dir = parent conf_dir")
        case True
        with None nofile "1.prems" ne show ?thesis
          by (simp add: read_toml_opts.simps [of parse fs c conf_dir] Let_def returning_other)
      next
        case False
        then have "length (tail (parent conf_dir)) < length (tail conf_dir)"
          by (auto simp: parent_def split: if_splits)
        with "1.prems"(2) have "length (tail (parent conf_dir)) < length (tail k)" by simp
        from "1.IH" [OF None refl nofile refl False "1.prems"(1) this]
        have "map_of (snd (read_toml_opts parse fs c (parent conf_dir))) k = None" .
        with None nofile False ne show ?thesis
          by (simp add: read_toml_opts.simps [of parse fs c conf_dir] Let_def returning_other)
      qed
    qed
  qed
qed

lemma result_is_cached:
  assumes "fst (read_toml_opts parse fs c d) = Inr m"
  shows "map_of (snd (read_toml_opts parse fs c d)) d = Some m"
proof (cases "map_of c d")
  case (Some r)
  with assms show ?thesis
    by (simp add: read_toml_opts.simps [of parse fs c d] Let_def cache_hit_def)
next
  case None
  show ?thesis
  proof (cases "fs (joinpath d ''.mdformat.toml'')")
    case (Some content)
    with None assms show ?thesis
      by (auto simp: read_toml_opts.simps [of parse fs c d] Let_def returning_def
          cache_store_fresh split: sum.splits)
  next
    case nofile: None
    show ?thesis
    proof (cases "d = parent d")
      case True
      with None nofile assms show ?thesis
        by (auto simp: read_toml_opts.simps [of parse fs c d] Let_def returning_def cache_store_fresh)
    next
      case False
      then have "length (tail (parent d)) < length (tail d)"
        by (auto simp: parent_def split: if_splits)
      from deeper_key_untouched [OF None this]
      have "map_of (snd (read_toml_opts parse fs c (parent d))) d = None" .
      with None nofile False assms show ?thesis
        by (auto simp: read_toml_opts.simps [of parse fs c d] Let_def returning_def cache_store_fresh
            split: sum.splits)
    qed
  qed
qed

lemma failing_call_keeps_cache:
  "fst (read_toml_opts parse fs c d) = Inl e \<Longrightarrow> snd (read_toml_opts parse fs c d) = c"
proof (induction parse fs c d rule: read_toml_opts.induct)
  case (1 parse fs c conf_dir)
  show ?case
  proof (cases "map_of c conf_dir")
    case (Some r)
    with "1.prems" show ?thesis
      by (simp add: read_toml_opts.simps [of parse fs c conf_dir])
  next
    case None
    show ?thesis
    proof (cases "fs (joinpath conf_dir ''.mdformat.toml'')")
      case (Some content)
      with None "1.prems" show ?thesis
        by (auto simp: read_toml_opts.simps [of parse fs c conf_dir] Let_def returning_def
            split: sum.splits)
    next
      case nofile: None
      show ?thesis
      proof (cases "conf_dir = parent conf_dir")
        case True
        with None nofile "1.prems" show ?thesis
          by (simp add: read_toml_opts.simps [of parse fs c conf_dir] Let_def returning_def)
      next
        case False
        from None nofile False "1.prems"
        have up: "fst (read_toml_opts parse fs c (parent conf_dir)) = Inl e"
          by (simp add: read_toml_opts.simps [of parse fs c conf_dir] Let_def)
        from "1.IH" [OF None refl nofile refl False up]
        have "snd (read_toml_opts parse fs c (parent conf_dir)) = c" .
        with None nofile False up show ?thesis
          by (simp add: read_toml_opts.simps [of parse fs c conf_dir] Let_def returning_def)
      qed
    qed
  qed
qed

subsection \<open>Paths and the depth of the walk\<close>

lemma parent_shorter: "parent d \<noteq> d \<Longrightarrow> length (tail (parent d)) < length (tail d)"
  by (auto simp: parent_def split: if_splits)

lemma parent_fixed_iff: "parent d = d \<longleftrightarrow> tail d = []"
proof
  assume "parent d = d"
  then have "tail (parent d) = tail d" by simp
  then show "tail d = []"
    by (cases "tail d" rule: rev_cases) (auto simp: parent_def)
qed (simp add: parent_def)

lemma bounded_enough:
  "length (tail d) < depth \<Longrightarrow>
   read_toml_opts_bounded depth parse fs c d = Some (read_toml_opts parse fs c d)"
proof (induction depth arbitrary: d)
  case 0
  then show ?case by simp
next
  case (Suc depth)
  show ?case
  proof (cases "parent d = d")
    case True
    then show ?thesis
      by (simp add: read_toml_opts.simps [of parse fs c d] Let_def
          split: option.splits sum.splits)
  next
    case False
    from parent_shorter [OF False] Suc.prems have "length (tail (parent d)) < depth" by simp
    from Suc.IH [OF this] False show ?thesis
      by (simp add: read_toml_opts.simps [of parse fs c d] Let_def
          split: option.splits sum.splits)
  qed
qed

lemma length_ancestors: "length (ancestors d) = Suc (length (tail d))"
proof (induction d rule: ancestors.induct)
  case (1 d)
  show ?case
  proof (cases "parent d = d")
    case True
    then show ?thesis by (simp add: ancestors.simps [of d] parent_fixed_iff)
  next
    case False
    with "1.IH" have "length (ancestors (parent d)) = Suc (length (tail (parent d)))" by simp
    moreover from False have "tail d \<noteq> []" by (simp add: parent_fixed_iff)
    ultimately show ?thesis using False
      by (simp add: ancestors.simps [of d] parent_def)
  qed
qed

lemma last_ancestors: "last (ancestors d) = d\<lparr>tail := []\<rparr>"
proof (induction d rule: ancestors.induct)
  case (1 d)
  show ?case
  proof (cases "parent d = d")
    case True
    then show ?thesis by (simp add: ancestors.simps [of d] parent_fixed_iff)
  next
    case False
    have ne: "ancestors (parent d) \<noteq> []" by (subst ancestors.simps) simp
    from "1.IH" [OF False] False ne show ?thesis
      by (simp add: ancestors.simps [of d] parent_def split: if_splits)
  qed
qed

subsection \<open>Value validation\<close>

text \<open>Value validation succeeds exactly on the tables that satisfy the enforced rules;
  when the values of the enforced keys can be hashed, every failure is an
  \<^verbatim>\<open>InvalidConfError\<close> about one of these keys.\<close>

lemma validate_values_cong:
  assumes "\<forall>k\<in>set enforced_keys. map_of opts' k = map_of opts k"
  shows "validate_values opts' p = validate_values opts p"
  using assms by (simp add: validate_values_def require_in_def enforced_keys_def)

lemma recognized_keys_split:
  "set recognized_keys = set enforced_keys \<union> set unenforced_keys"
  by (auto simp: recognized_keys_def DEFAULT_OPTS_def enforced_keys_def unenforced_keys_def)

lemma unenforced_not_enforced:
  "key \<in> set unenforced_keys \<Longrightarrow> key \<notin> set enforced_keys"
  by (auto simp: enforced_keys_def unenforced_keys_def)

lemma and_then_ok_iff: "and_then r k = Inr () \<longleftrightarrow> r = Inr () \<and> k = Inr ()"
  by (cases r) (auto simp: and_then_def)

lemma require_in_ok_iff:
  "require_in opts key strs p = Inr () \<longleftrightarrow> holds_at opts key (spec_one_of strs)"
  by (cases "map_of opts key"; cases "the (map_of opts key)")
     (auto simp: holds_at_def require_in_def)

lemma validate_values_ok_iff:
  "validate_values opts p = Inr () \<longleftrightarrow> spec_conformant opts"
proof -
  have w: "(case map_of opts ''wrap'' of
         None \<Rightarrow> Inr ()
       | Some wrap_value \<Rightarrow>
           if isinstance_int wrap_value \<and> int_gt_1 wrap_value then Inr ()
           else (case in_str_set wrap_value [''keep'', ''no''] of
                   Inl e \<Rightarrow> Inl e
                 | Inr found \<Rightarrow>
                     if \<not> found then Inl (InvalidConfError (Invalid_value ''wrap'' p))
                     else Inr ())) = Inr () \<longleftrightarrow> holds_at opts ''wrap'' spec_wrap_valid"
    by (cases "map_of opts ''wrap''"; cases "the (map_of opts ''wrap'')")
       (auto simp: holds_at_def)
  have n: "(case map_of opts ''number'' of
         None \<Rightarrow> Inr ()
       | Some v \<Rightarrow>
           if \<not> isinstance_bool v
           then Inl (InvalidConfError (Invalid_value ''number'' p))
           else Inr ()) = Inr () \<longleftrightarrow> holds_at opts ''number'' spec_genuine_bool"
    by (cases "map_of opts ''number''"; cases "the (map_of opts ''number'')")
       (auto simp: holds_at_def)
  show ?thesis
    unfolding validate_values_def and_then_ok_iff w n require_in_ok_iff spec_conformant_def
    by (rule refl)
qed

lemma validate_keys_ok_iff:
  "validate_keys opts p = Inr () \<longleftrightarrow> set (map fst opts) \<subseteq> set (map fst DEFAULT_OPTS)"
proof -
  have "validate_keys_loop keys p = Inr () \<longleftrightarrow> set keys \<subseteq> set recognized_keys" for keys
    by (induction keys) auto
  then show ?thesis by (simp add: validate_keys_def recognized_keys_def)
qed

lemma require_in_hashable:
  "holds_at opts key hashable \<Longrightarrow> require_in opts key strs p = Inl e \<Longrightarrow>
   e = InvalidConfError (Invalid_value key p)"
  by (cases "map_of opts key"; cases "the (map_of opts key)")
     (auto simp: holds_at_def require_in_def split: if_splits)

lemma and_then_errorE:
  assumes "and_then r k = Inl e"
  obtains "r = Inl e" | "k = Inl e"
  using assms by (cases r) (auto simp: and_then_def)

lemma validate_values_hashable:
  assumes "\<forall>k\<in>set enforced_keys. holds_at opts k hashable"
    and "validate_values opts p = Inl e"
  shows "\<exists>k\<in>set enforced_keys. e = InvalidConfError (Invalid_value k p)"
proof -
  have w: "(case map_of opts ''wrap'' of
         None \<Rightarrow> Inr ()
       | Some wrap_value \<Rightarrow>
           if isinstance_int wrap_value \<and> int_gt_1 wrap_value then Inr ()
           else (case in_str_set wrap_value [''keep'', ''no''] of
                   Inl e \<Rightarrow> Inl e
                 | Inr found \<Rightarrow>
                     if \<not> found then Inl (InvalidConfError (Invalid_value ''wrap'' p))
                     else Inr ())) = Inl e \<Longrightarrow> e = InvalidConfError (Invalid_value ''wrap'' p)"
    using assms(1)
    by (cases "map_of opts ''wrap''"; cases "the (map_of opts ''wrap'')")
       (auto simp: holds_at_def enforced_keys_def split: if_splits)
  have n: "(case map_of opts ''number'' of
         None \<Rightarrow> Inr ()
       | Some v \<Rightarrow>
           if \<not> isinstance_bool v
           then Inl (InvalidConfError (Invalid_value ''number'' p))
           else Inr ()) = Inl e \<Longrightarrow> e = InvalidConfError (Invalid_value ''number'' p)"
    by (cases "map_of opts ''number''") (auto split: if_splits)
  from assms(1) have h: "holds_at opts ''end_of_line'' hashable"
    "holds_at opts ''primary_bullet_list_marker'' hashable"
    "holds_at opts ''secondary_bullet_list_marker'' hashable"
    by (simp_all add: enforced_keys_def)
  from assms(2) show ?thesis
    unfolding validate_values_def
    apply (elim and_then_errorE)
    subgoal by (drule w) (simp add: enforced_keys_def)
    subgoal by (drule require_in_hashable [OF h(1)]) (simp add: enforced_keys_def)
    subgoal by (drule n) (simp add: enforced_keys_def)
    subgoal by (drule require_in_hashable [OF h(2)]) (simp add: enforced_keys_def)
    subgoal by (drule require_in_hashable [OF h(3)]) (simp add: enforced_keys_def)
    done
qed

text \<open>The examples of the specification for \<^verbatim>\<open>wrap\<close> and \<^verbatim>\<open>number\<close>.\<close>

lemma wrap_examples:
  "validate_values [(''wrap'', TInt 1)] p = Inl (InvalidConfError (Invalid_value ''wrap'' p))"
  "validate_values [(''wrap'', TInt 2)] p = Inr ()"
  "validate_values [(''wrap'', TStr ''keep'')] p = Inr ()"
  "validate_values [(''wrap'', TStr ''no'')] p = Inr ()"
  "validate_values [(''wrap'', TStr ''bad'')] p = Inl (InvalidConfError (Invalid_value ''wrap'' p))"
  "validate_values [(''wrap'', TBool True)] p = Inl (InvalidConfError (Invalid_value ''wrap'' p))"
  by (simp_all add: validate_values_def and_then_def require_in_def)

lemma number_examples:
  "validate_values [(''number'', TInt 1)] p = Inl (InvalidConfError (Invalid_value ''number'' p))"
  "validate_values [(''number'', TStr ''yes'')] p
     = Inl (InvalidConfError (Invalid_value ''number'' p))"
  "validate_values [(''number'', TBool True)] p = Inr ()"
  "validate_values [(''number'', TBool False)] p = Inr ()"
  by (simp_all add: validate_values_def and_then_def require_in_def)

subsection \<open>Resolution\<close>

text \<open>
  Claim C1. When the nearest configuration file of a directory parses, has only
  recognized keys and values that satisfy the enforced rules, the resolver returns the
  parsed table itself: the same keys with the same values in the same order, nothing
  added from \<open>DEFAULT_OPTS\<close>.
\<close>

theorem resolve_returns_file_unchanged:
  assumes "cache_ok parse fs c"
    and "nearest fs d = Some a"
    and "fs (conf_file a) = Some content"
    and "parse content = Inr opts"
    and "set (map fst opts) \<subseteq> set recognized_keys"
    and "spec_conformant opts"
  shows "fst (read_toml_opts parse fs c d) = Inr opts"
proof -
  have "validate_keys opts (conf_file a) = Inr ()"
    using assms(5) by (simp add: validate_keys_def validate_keys_loop_ok)
  moreover have "validate_values opts (conf_file a) = Inr ()"
    using assms(6) by (simp add: validate_values_ok_iff)
  ultimately have "fst (read_toml_opts parse fs [] a) = Inr opts"
    using assms(3,4) by (simp add: read_fresh_file)
  with resolve_via_nearest [OF assms(1,2)] show ?thesis by simp
qed

theorem resolve_returns_file_unchanged_witness:
  "cache_ok sample_parse (only_file (conf_file (posix [''a''])) ''number = true'') [] \<and>
   nearest (only_file (conf_file (posix [''a''])) ''number = true'') (posix [''a'', ''b''])
     = Some (posix [''a'']) \<and>
   only_file (conf_file (posix [''a''])) ''number = true'' (conf_file (posix [''a'']))
     = Some ''number = true'' \<and>
   sample_parse ''number = true'' = Inr [(''number'', TBool True)] \<and>
   set (map fst [(''number'', TBool True)]) \<subseteq> set recognized_keys \<and>
   spec_conformant [(''number'', TBool True)] \<and>
   fst (read_toml_opts sample_parse (only_file (conf_file (posix [''a''])) ''number = true'') []
          (posix [''a'', ''b''])) = Inr [(''number'', TBool True)]"
proof -
  let ?fs = "only_file (conf_file (posix [''a''])) ''number = true''"
  have h1: "cache_ok sample_parse ?fs []" by (simp add: cache_ok_def)
  have h2: "nearest ?fs (posix [''a'', ''b'']) = Some (posix [''a''])"
    by (simp add: nearest_unfold only_file_def conf_file_def joinpath_def posix_def parent_def)
  have h3: "?fs (conf_file (posix [''a''])) = Some ''number = true''"
    by (simp add: only_file_def)
  have h4: "sample_parse ''number = true'' = Inr [(''number'', TBool True)]"
    by (simp add: sample_parse_def sample_documents_def)
  have h5: "set (map fst [(''number'', TBool True)]) \<subseteq> set recognized_keys"
    by (simp add: recognized_keys_def DEFAULT_OPTS_def)
  have h6: "spec_conformant [(''number'', TBool True)]"
    by (simp add: spec_conformant_def holds_at_def)
  note concl = resolve_returns_file_unchanged [OF h1 h2 h3 h4 h5 h6]
  show ?thesis by (intro conjI h1 h2 h3 h4 h5 h6 concl)
qed



text \<open>
  Claim C2. A directory whose ancestor chain (itself, its parent, up to the directory
  that is its own parent) holds no file named \<^verbatim>\<open>.mdformat.toml\<close> resolves to the empty
  table.
\<close>

theorem resolve_empty_without_file:
  assumes "cache_ok parse fs c"
    and "\<forall>a\<in>set (ancestors d). \<not> is_file fs (conf_file a)"
  shows "fst (read_toml_opts parse fs c d) = Inr []"
proof -
  from assms(2) have "nearest fs d = None" by (simp add: nearest_None_iff)
  then have "fst (read_toml_opts parse fs [] d) = Inr []" by (rule read_fresh_none)
  with read_consistent [OF assms(1), of d] show ?thesis by simp
qed

theorem resolve_empty_without_file_witness:
  "cache_ok sample_parse (only_file (conf_file (posix [''x''])) ''wrap = 2'') [] \<and>
   ancestors (posix [''a'', ''b'']) = [posix [''a'', ''b''], posix [''a''], posix []] \<and>
   \<not> is_file (only_file (conf_file (posix [''x''])) ''wrap = 2'')
       (conf_file (posix [''a'', ''b''])) \<and>
   \<not> is_file (only_file (conf_file (posix [''x''])) ''wrap = 2'') (conf_file (posix [''a''])) \<and>
   \<not> is_file (only_file (conf_file (posix [''x''])) ''wrap = 2'') (conf_file (posix [])) \<and>
   fst (read_toml_opts sample_parse (only_file (conf_file (posix [''x''])) ''wrap = 2'') []
          (posix [''a'', ''b''])) = Inr []"
proof -
  let ?fs = "only_file (conf_file (posix [''x''])) ''wrap = 2''"
  have h1: "cache_ok sample_parse ?fs []" by (simp add: cache_ok_def)
  have anc: "ancestors (posix [''a'', ''b'']) = [posix [''a'', ''b''], posix [''a''], posix []]"
    by (simp add: ancestors.simps posix_def parent_def)
  have n1: "\<not> is_file ?fs (conf_file (posix [''a'', ''b'']))"
    by (simp add: is_file_def only_file_def conf_file_def joinpath_def posix_def)
  have n2: "\<not> is_file ?fs (conf_file (posix [''a'']))"
    by (simp add: is_file_def only_file_def conf_file_def joinpath_def posix_def)
  have n3: "\<not> is_file ?fs (conf_file (posix []))"
    by (simp add: is_file_def only_file_def conf_file_def joinpath_def posix_def)
  have h2: "\<forall>a\<in>set (ancestors (posix [''a'', ''b''])). \<not> is_file ?fs (conf_file a)"
    unfolding anc using n1 n2 n3 by simp
  note concl = resolve_empty_without_file [OF h1 h2]
  show ?thesis by (intro conjI h1 anc n1 n2 n3 concl)
qed

text \<open>
  Claim C3. When the parsed table of the nearest configuration file has a key outside
  \<open>DEFAULT_OPTS\<close>, the resolver raises \<^verbatim>\<open>InvalidConfError\<close>; the message names the first
  such key of the table, the path of the file, and the whole key set of \<open>DEFAULT_OPTS\<close>.
\<close>

theorem unrecognized_key_rejected:
  assumes "cache_ok parse fs c"
    and "nearest fs d = Some a"
    and "fs (conf_file a) = Some content"
    and "parse content = Inr opts"
    and "find (\<lambda>k. k \<notin> set (map fst DEFAULT_OPTS)) (map fst opts) = Some key"
  shows "fst (read_toml_opts parse fs c d) =
           Inl (InvalidConfError (Invalid_key key (conf_file a) (set (map fst DEFAULT_OPTS))))"
proof -
  from assms(5) have "validate_keys opts (conf_file a) =
      Inl (InvalidConfError (Invalid_key key (conf_file a) (set recognized_keys)))"
    by (simp add: validate_keys_def recognized_keys_def validate_keys_loop_first)
  with assms(3,4) have "fst (read_toml_opts parse fs [] a) =
      Inl (InvalidConfError (Invalid_key key (conf_file a) (set recognized_keys)))"
    by (simp add: read_fresh_file)
  with resolve_via_nearest [OF assms(1,2)] show ?thesis
    by (simp add: recognized_keys_def)
qed

theorem unrecognized_key_rejected_witness:
  "cache_ok sample_parse (only_file (conf_file (posix [])) ''color = 1'') [] \<and>
   nearest (only_file (conf_file (posix [])) ''color = 1'') (posix [''docs'']) = Some (posix []) \<and>
   only_file (conf_file (posix [])) ''color = 1'' (conf_file (posix [])) = Some ''color = 1'' \<and>
   sample_parse ''color = 1'' = Inr [(''color'', TInt 1)] \<and>
   find (\<lambda>k. k \<notin> set (map fst DEFAULT_OPTS)) (map fst [(''color'', TInt 1)]) = Some ''color'' \<and>
   fst (read_toml_opts sample_parse (only_file (conf_file (posix [])) ''color = 1'') []
          (posix [''docs''])) =
     Inl (InvalidConfError (Invalid_key ''color'' (conf_file (posix []))
            (set (map fst DEFAULT_OPTS))))"
proof -
  let ?fs = "only_file (conf_file (posix [])) ''color = 1''"
  have h1: "cache_ok sample_parse ?fs []" by (simp add: cache_ok_def)
  have h2: "nearest ?fs (posix [''docs'']) = Some (posix [])"
    by (simp add: nearest_unfold only_file_def conf_file_def joinpath_def posix_def parent_def)
  have h3: "?fs (conf_file (posix [])) = Some ''color = 1''"
    by (simp add: only_file_def)
  have h4: "sample_parse ''color = 1'' = Inr [(''color'', TInt 1)]"
    by (simp add: sample_parse_def sample_documents_def)
  have h5: "find (\<lambda>k. k \<notin> set (map fst DEFAULT_OPTS)) (map fst [(''color'', TInt 1)])
              = Some ''color''"
    by (simp add: DEFAULT_OPTS_def)
  note concl = unrecognized_key_rejected [OF h1 h2 h3 h4 h5]
  show ?thesis by (intro conjI h1 h2 h3 h4 h5 concl)
qed

text \<open>
  Claim C9. A directory that holds no configuration file itself resolves to the contents
  of the file of its nearest ancestor that holds one, which lies on the chain of its
  parent: the outcome is that of parsing and validating this file, and it is a table
  exactly when the file parses to that table, with recognized keys only and values that
  satisfy the enforced rules. With a file only at \<^verbatim>\<open>/a\<close>, resolving \<^verbatim>\<open>/a/b/c\<close> gives the
  table of that file.
\<close>

theorem resolve_uses_nearest_ancestor:
  assumes "cache_ok parse fs c"
    and "\<not> is_file fs (conf_file d)"
    and "nearest fs d = Some a"
    and "fs (conf_file a) = Some content"
  shows "a \<noteq> d \<and> a \<in> set (ancestors (parent d)) \<and>
         fst (read_toml_opts parse fs c d) =
           (case parse content of
              Inl e \<Rightarrow> Inl (InvalidConfError (Invalid_TOML_syntax e))
            | Inr opts \<Rightarrow>
               (case validate_keys opts (conf_file a) of
                  Inl e \<Rightarrow> Inl e
                | Inr _ \<Rightarrow>
                   (case validate_values opts (conf_file a) of
                      Inl e \<Rightarrow> Inl e
                    | Inr _ \<Rightarrow> Inr opts))) \<and>
         (fst (read_toml_opts parse fs c d) = Inr table \<longleftrightarrow>
            parse content = Inr table \<and>
            set (map fst table) \<subseteq> set (map fst DEFAULT_OPTS) \<and>
            spec_conformant table)"
proof -
  from assms(2,3) have notroot: "parent d \<noteq> d" and up: "nearest fs (parent d) = Some a"
    by (subst (asm) nearest_unfold, simp add: is_file_def split: if_splits)+
  from up have anc: "a \<in> set (ancestors (parent d))" by (rule nearest_in_ancestors)
  from assms(2) nearest_is_file [OF assms(3)] have ne: "a \<noteq> d" by auto
  have eq: "fst (read_toml_opts parse fs c d) =
           (case parse content of
              Inl e \<Rightarrow> Inl (InvalidConfError (Invalid_TOML_syntax e))
            | Inr opts \<Rightarrow>
               (case validate_keys opts (conf_file a) of
                  Inl e \<Rightarrow> Inl e
                | Inr _ \<Rightarrow>
                   (case validate_values opts (conf_file a) of
                      Inl e \<Rightarrow> Inl e
                    | Inr _ \<Rightarrow> Inr opts)))"
    using resolve_via_nearest [OF assms(1,3)]
      read_fresh_file [where fs = fs and a = a and content = content and parse = parse]
      assms(4)
    by simp
  have raw: "fst (read_toml_opts parse fs c d) = Inr table \<longleftrightarrow>
            parse content = Inr table \<and>
            validate_keys table (conf_file a) = Inr () \<and>
            validate_values table (conf_file a) = Inr ()"
    unfolding eq
    by (cases "parse content"; cases "validate_keys table (conf_file a)";
        cases "validate_values table (conf_file a)")
       (auto split: sum.splits)
  have iff: "fst (read_toml_opts parse fs c d) = Inr table \<longleftrightarrow>
            parse content = Inr table \<and>
            set (map fst table) \<subseteq> set (map fst DEFAULT_OPTS) \<and>
            spec_conformant table"
    unfolding raw validate_keys_ok_iff validate_values_ok_iff by (rule refl)
  from ne anc eq iff show ?thesis by blast
qed

theorem resolve_uses_nearest_ancestor_witness:
  "cache_ok sample_parse (only_file (conf_file (posix [''a''])) ''wrap = 2'') [] \<and>
   \<not> is_file (only_file (conf_file (posix [''a''])) ''wrap = 2'')
       (conf_file (posix [''a'', ''b'', ''c''])) \<and>
   nearest (only_file (conf_file (posix [''a''])) ''wrap = 2'') (posix [''a'', ''b'', ''c''])
     = Some (posix [''a'']) \<and>
   only_file (conf_file (posix [''a''])) ''wrap = 2'' (conf_file (posix [''a'']))
     = Some ''wrap = 2'' \<and>
   sample_parse ''wrap = 2'' = Inr [(''wrap'', TInt 2)] \<and>
   set (map fst [(''wrap'', TInt 2)]) \<subseteq> set (map fst DEFAULT_OPTS) \<and>
   spec_conformant [(''wrap'', TInt 2)] \<and>
   posix [''a''] \<in> set (ancestors (parent (posix [''a'', ''b'', ''c'']))) \<and>
   fst (read_toml_opts sample_parse (only_file (conf_file (posix [''a''])) ''wrap = 2'') []
          (posix [''a'', ''b'', ''c''])) = Inr [(''wrap'', TInt 2)]"
proof -
  let ?fs = "only_file (conf_file (posix [''a''])) ''wrap = 2''"
  have h1: "cache_ok sample_parse ?fs []" by (simp add: cache_ok_def)
  have h2: "\<not> is_file ?fs (conf_file (posix [''a'', ''b'', ''c'']))"
    by (simp add: is_file_def only_file_def conf_file_def joinpath_def posix_def)
  have h3: "nearest ?fs (posix [''a'', ''b'', ''c'']) = Some (posix [''a''])"
    by (simp add: nearest_unfold only_file_def conf_file_def joinpath_def posix_def parent_def)
  have h4: "?fs (conf_file (posix [''a''])) = Some ''wrap = 2''"
    by (simp add: only_file_def)
  have p: "sample_parse ''wrap = 2'' = Inr [(''wrap'', TInt 2)]"
    by (simp add: sample_parse_def sample_documents_def)
  have k: "set (map fst [(''wrap'', TInt 2)]) \<subseteq> set (map fst DEFAULT_OPTS)"
    by (simp add: DEFAULT_OPTS_def)
  have v: "spec_conformant [(''wrap'', TInt 2)]"
    by (simp add: spec_conformant_def holds_at_def)
  note inst = resolve_uses_nearest_ancestor [OF h1 h2 h3 h4, where table = "[(''wrap'', TInt 2)]"]
  from inst have anc: "posix [''a''] \<in> set (ancestors (parent (posix [''a'', ''b'', ''c''])))"
    by blast
  from inst p k v
  have concl: "fst (read_toml_opts sample_parse ?fs [] (posix [''a'', ''b'', ''c'']))
                 = Inr [(''wrap'', TInt 2)]" by blast
  show ?thesis by (intro conjI h1 h2 h3 h4 p k v anc concl)
qed

text \<open>With a second file at the root, the nearer file at \<^verbatim>\<open>/a\<close> still decides.\<close>

lemma nearest_file_wins_example:
  "fst (read_toml_opts sample_parse
         ((only_file (conf_file (posix [])) ''number = true'')
            (conf_file (posix [''a'']) \<mapsto> ''wrap = 2''))
         [] (posix [''a'', ''b'', ''c''])) = Inr [(''wrap'', TInt 2)]"
  by (simp add: read_toml_opts.simps only_file_def conf_file_def joinpath_def posix_def
      parent_def sample_parse_def sample_documents_def validate_keys_def recognized_keys_def
      DEFAULT_OPTS_def validate_values_def and_then_def require_in_def)

subsection \<open>Enforced and unenforced values\<close>

text \<open>
  Claim C4. The rule for \<^verbatim>\<open>wrap\<close> accepts an integer above 1 and the strings \<^verbatim>\<open>keep\<close> and
  \<^verbatim>\<open>no\<close>, and every other value makes the resolver fail (\<open>validate_values_ok_iff\<close>).
  The failure is an \<^verbatim>\<open>InvalidConfError\<close> for every value that can be hashed
  (\<open>validate_values_hashable\<close>), but not for an array or a table: the test
  \<^verbatim>\<open>wrap_value in {"keep", "no"}\<close> hashes the value and raises \<^verbatim>\<open>TypeError\<close>. The file
  \<^verbatim>\<open>wrap = []\<close> shows it.
\<close>

theorem wrap_array_raises_TypeError:
  "fst (read_toml_opts sample_parse (only_file (conf_file (posix [])) ''wrap = []'') [] (posix []))
     = Inl (TypeError ''unhashable type: list'')"
  by (simp add: read_toml_opts.simps only_file_def conf_file_def joinpath_def posix_def
      sample_parse_def sample_documents_def validate_keys_def recognized_keys_def
      DEFAULT_OPTS_def validate_values_def and_then_def require_in_def)

text \<open>
  Claim C5. The rules for \<^verbatim>\<open>end_of_line\<close>, \<^verbatim>\<open>number\<close> and the two bullet list markers
  accept exactly the values the claim lists (\<open>validate_values_ok_iff\<close>). The test of
  \<^verbatim>\<open>number\<close> is \<^verbatim>\<open>isinstance\<close> and rejects every other value with \<^verbatim>\<open>InvalidConfError\<close>;
  the three membership tests hash the value first, so an array or a table given for
  \<^verbatim>\<open>end_of_line\<close> or a bullet marker raises \<^verbatim>\<open>TypeError\<close> instead. The file
  \<^verbatim>\<open>end_of_line = {}\<close> shows it.
\<close>

theorem end_of_line_table_raises_TypeError:
  "fst (read_toml_opts sample_parse (only_file (conf_file (posix [])) ''end_of_line = {}'') []
         (posix []))
     = Inl (TypeError ''unhashable type: dict'')"
  by (simp add: read_toml_opts.simps only_file_def conf_file_def joinpath_def posix_def
      sample_parse_def sample_documents_def validate_keys_def recognized_keys_def
      DEFAULT_OPTS_def validate_values_def and_then_def require_in_def)

text \<open>
  Claim C6. A key without an enforced rule passes with any value whatsoever: when a
  table passes value validation, so does the table with such a key set to an arbitrary
  value, and a file that parses to it resolves to it.
\<close>

theorem unenforced_values_accepted:
  assumes "cache_ok parse fs c"
    and "nearest fs d = Some a"
    and "fs (conf_file a) = Some content"
    and "parse content = Inr opts'"
    and "set (map fst opts') \<subseteq> set recognized_keys"
    and "key \<in> set unenforced_keys"
    and "map_of opts' = (map_of opts)(key \<mapsto> v)"
    and "validate_values opts (conf_file a) = Inr ()"
  shows "fst (read_toml_opts parse fs c d) = Inr opts'"
proof -
  have "\<forall>k\<in>set enforced_keys. map_of opts' k = map_of opts k"
    using unenforced_not_enforced [OF assms(6)] assms(7) by auto
  then have "validate_values opts' (conf_file a) = validate_values opts (conf_file a)"
    by (rule validate_values_cong)
  with assms(8) have "validate_values opts' (conf_file a) = Inr ()" by simp
  moreover have "validate_keys opts' (conf_file a) = Inr ()"
    using assms(5) by (simp add: validate_keys_def validate_keys_loop_ok)
  ultimately have "fst (read_toml_opts parse fs [] a) = Inr opts'"
    using assms(3,4) by (simp add: read_fresh_file)
  with resolve_via_nearest [OF assms(1,2)] show ?thesis by simp
qed

theorem unenforced_values_accepted_witness:
  "cache_ok sample_parse (only_file (conf_file (posix [])) ''thematic_break_width = []'') [] \<and>
   nearest (only_file (conf_file (posix [])) ''thematic_break_width = []'') (posix [])
     = Some (posix []) \<and>
   only_file (conf_file (posix [])) ''thematic_break_width = []'' (conf_file (posix []))
     = Some ''thematic_break_width = []'' \<and>
   sample_parse ''thematic_break_width = []'' = Inr [(''thematic_break_width'', TArray [])] \<and>
   set (map fst [(''thematic_break_width'', TArray [])]) \<subseteq> set recognized_keys \<and>
   ''thematic_break_width'' \<in> set unenforced_keys \<and>
   map_of [(''thematic_break_width'', TArray [])]
     = (map_of [])(''thematic_break_width'' \<mapsto> TArray []) \<and>
   validate_values [] (conf_file (posix [])) = Inr () \<and>
   fst (read_toml_opts sample_parse
          (only_file (conf_file (posix [])) ''thematic_break_width = []'') [] (posix []))
     = Inr [(''thematic_break_width'', TArray [])]"
proof -
  let ?fs = "only_file (conf_file (posix [])) ''thematic_break_width = []''"
  have h1: "cache_ok sample_parse ?fs []" by (simp add: cache_ok_def)
  have h2: "nearest ?fs (posix []) = Some (posix [])"
    by (simp add: nearest_unfold only_file_def)
  have h3: "?fs (conf_file (posix [])) = Some ''thematic_break_width = []''"
    by (simp add: only_file_def)
  have h4: "sample_parse ''thematic_break_width = []''
              = Inr [(''thematic_break_width'', TArray [])]"
    by (simp add: sample_parse_def sample_documents_def)
  have h5: "set (map fst [(''thematic_break_width'', TArray [])]) \<subseteq> set recognized_keys"
    by (simp add: recognized_keys_def DEFAULT_OPTS_def)
  have h6: "''thematic_break_width'' \<in> set unenforced_keys"
    by (simp add: unenforced_keys_def)
  have h7: "map_of [(''thematic_break_width'', TArray [])]
              = (map_of [])(''thematic_break_width'' \<mapsto> TArray [])"
    by simp
  have h8: "validate_values [] (conf_file (posix [])) = Inr ()"
    by (simp add: validate_values_def and_then_def require_in_def)
  note concl = unenforced_values_accepted [OF h1 h2 h3 h4 h5 h6 h7 h8]
  show ?thesis by (intro conjI h1 h2 h3 h4 h5 h6 h7 h8 concl)
qed

text \<open>
  Claim C7. A call either returns a table or raises, never both, and a malformed file, an
  unrecognized key and a rejected scalar value all raise \<^verbatim>\<open>InvalidConfError\<close>. It is not
  the only error the contents of a file can cause: an array or a table as the value of a
  key with a membership rule raises \<^verbatim>\<open>TypeError\<close>. The file
  \<^verbatim>\<open>secondary_bullet_list_marker = []\<close> shows it.
\<close>

theorem bullet_marker_array_raises_TypeError:
  "fst (read_toml_opts sample_parse
         (only_file (conf_file (posix [])) ''secondary_bullet_list_marker = []'') [] (posix []))
     = Inl (TypeError ''unhashable type: list'')"
  by (simp add: read_toml_opts.simps only_file_def conf_file_def joinpath_def posix_def
      sample_parse_def sample_documents_def validate_keys_def recognized_keys_def
      DEFAULT_OPTS_def validate_values_def and_then_def require_in_def)

subsection \<open>Caching\<close>

text \<open>
  Claim C8, as amended. When a call returns a table, the call that follows it at once
  with the same directory returns the same table out of the cache, whatever the file
  system and the parser would give by then; it only moves the entry to the front of the
  cache. When a call raises, it leaves the cache as it found it, so the call that follows
  it does what it would have done without the failed call and reads the file system.
\<close>

theorem second_call_served_from_cache:
  "(fst (read_toml_opts parse fs c d) = Inr m \<longrightarrow>
      read_toml_opts parse' fs' (snd (read_toml_opts parse fs c d)) d =
        (Inr m, cache_hit d m (snd (read_toml_opts parse fs c d)))) \<and>
   (fst (read_toml_opts parse fs c d) = Inl e \<longrightarrow>
      snd (read_toml_opts parse fs c d) = c \<and>
      read_toml_opts parse' fs' (snd (read_toml_opts parse fs c d)) d =
        read_toml_opts parse' fs' c d)"
proof (intro conjI impI)
  assume ok: "fst (read_toml_opts parse fs c d) = Inr m"
  from result_is_cached [OF ok]
  show "read_toml_opts parse' fs' (snd (read_toml_opts parse fs c d)) d =
        (Inr m, cache_hit d m (snd (read_toml_opts parse fs c d)))"
    by (simp add: read_toml_opts.simps [of parse' fs' _ d])
next
  assume err: "fst (read_toml_opts parse fs c d) = Inl e"
  then show same: "snd (read_toml_opts parse fs c d) = c" by (rule failing_call_keeps_cache)
  show "read_toml_opts parse' fs' (snd (read_toml_opts parse fs c d)) d =
        read_toml_opts parse' fs' c d"
    by (simp only: same)
qed

theorem second_call_served_from_cache_witness:
  "fst (read_toml_opts sample_parse (only_file (conf_file (posix [])) ''wrap = 2'') [] (posix []))
     = Inr [(''wrap'', TInt 2)] \<and>
   fst (read_toml_opts sample_parse (only_file (conf_file (posix [])) ''wrap = 1'')
         (snd (read_toml_opts sample_parse (only_file (conf_file (posix [])) ''wrap = 2'') []
                (posix [])))
         (posix []))
     = Inr [(''wrap'', TInt 2)] \<and>
   fst (read_toml_opts sample_parse (only_file (conf_file (posix [])) ''color = 1'') [] (posix []))
     = Inl (InvalidConfError (Invalid_key ''color'' (conf_file (posix []))
              (set (map fst DEFAULT_OPTS)))) \<and>
   snd (read_toml_opts sample_parse (only_file (conf_file (posix [])) ''color = 1'') [] (posix []))
     = [] \<and>
   fst (read_toml_opts sample_parse (only_file (conf_file (posix [])) ''number = true'')
         (snd (read_toml_opts sample_parse (only_file (conf_file (posix [])) ''color = 1'') []
                (posix [])))
         (posix []))
     = Inr [(''number'', TBool True)]"
proof -
  let ?good = "only_file (conf_file (posix [])) ''wrap = 2''"
  let ?bad = "only_file (conf_file (posix [])) ''color = 1''"
  let ?later = "only_file (conf_file (posix [])) ''number = true''"
  have h: "fst (read_toml_opts sample_parse ?good [] (posix [])) = Inr [(''wrap'', TInt 2)]"
    by (simp add: read_toml_opts.simps only_file_def conf_file_def joinpath_def posix_def
        sample_parse_def sample_documents_def validate_keys_def recognized_keys_def
        DEFAULT_OPTS_def validate_values_def and_then_def require_in_def)
  from second_call_served_from_cache
         [where parse = sample_parse and fs = ?good and c = "[]" and d = "posix []"
            and m = "[(''wrap'', TInt 2)]" and parse' = sample_parse
            and fs' = "only_file (conf_file (posix [])) ''wrap = 1''"] h
  have hit: "fst (read_toml_opts sample_parse (only_file (conf_file (posix [])) ''wrap = 1'')
         (snd (read_toml_opts sample_parse ?good [] (posix []))) (posix []))
     = Inr [(''wrap'', TInt 2)]" by simp
  have f: "fst (read_toml_opts sample_parse ?bad [] (posix []))
     = Inl (InvalidConfError (Invalid_key ''color'' (conf_file (posix []))
              (set (map fst DEFAULT_OPTS))))"
    by (simp add: read_toml_opts.simps only_file_def conf_file_def joinpath_def posix_def
        sample_parse_def sample_documents_def validate_keys_def recognized_keys_def
        DEFAULT_OPTS_def)
  have fresh: "fst (read_toml_opts sample_parse ?later [] (posix []))
     = Inr [(''number'', TBool True)]"
    by (simp add: read_toml_opts.simps only_file_def conf_file_def joinpath_def posix_def
        sample_parse_def sample_documents_def validate_keys_def recognized_keys_def
        DEFAULT_OPTS_def validate_values_def and_then_def require_in_def)
  from second_call_served_from_cache
         [where parse = sample_parse and fs = ?bad and c = "[]" and d = "posix []"
            and e = "InvalidConfError (Invalid_key ''color'' (conf_file (posix []))
                       (set (map fst DEFAULT_OPTS)))"
            and parse' = sample_parse and fs' = ?later] f
  have kept: "snd (read_toml_opts sample_parse ?bad [] (posix [])) = []"
    and again: "read_toml_opts sample_parse ?later
                  (snd (read_toml_opts sample_parse ?bad [] (posix []))) (posix [])
                = read_toml_opts sample_parse ?later [] (posix [])"
    by blast+
  from again fresh
  have reread: "fst (read_toml_opts sample_parse ?later
         (snd (read_toml_opts sample_parse ?bad [] (posix []))) (posix []))
     = Inr [(''number'', TBool True)]" by simp
  show ?thesis by (intro conjI h hit f kept reread)
qed

text \<open>
  Claim C8, as stated, fails when the first call raises: \<^verbatim>\<open>lru_cache\<close> stores no
  exception, so the second call reads the file system again. With \<^verbatim>\<open>wrap = 1\<close> in the
  file the first call raises; an unchanged file makes the second call raise again, and
  a file changed to \<^verbatim>\<open>wrap = 2\<close> in between makes it return the new table.
\<close>

theorem failed_call_not_cached:
  "fst (read_toml_opts sample_parse (only_file (conf_file (posix [])) ''wrap = 1'') [] (posix []))
     = Inl (InvalidConfError (Invalid_value ''wrap'' (conf_file (posix [])))) \<and>
   fst (read_toml_opts sample_parse (only_file (conf_file (posix [])) ''wrap = 1'')
         (snd (read_toml_opts sample_parse (only_file (conf_file (posix [])) ''wrap = 1'') []
                (posix [])))
         (posix []))
     = Inl (InvalidConfError (Invalid_value ''wrap'' (conf_file (posix [])))) \<and>
   fst (read_toml_opts sample_parse (only_file (conf_file (posix [])) ''wrap = 2'')
         (snd (read_toml_opts sample_parse (only_file (conf_file (posix [])) ''wrap = 1'') []
                (posix [])))
         (posix []))
     = Inr [(''wrap'', TInt 2)]"
  by (simp add: read_toml_opts.simps only_file_def conf_file_def joinpath_def posix_def
      sample_parse_def sample_documents_def validate_keys_def recognized_keys_def
      DEFAULT_OPTS_def validate_values_def and_then_def require_in_def returning_def
      cache_store_def)

subsection \<open>Termination\<close>

text \<open>
  Claim C10. Each recursive step goes to the parent, which has one component less; a
  directory is its own parent exactly when it has no component left; the ancestor chain
  of a directory with \<open>n\<close> components has \<open>n + 1\<close> members and ends in a directory
  that is its own parent; and a recursion depth of \<open>n + 1\<close> is enough for the resolver
  to return.
\<close>

theorem resolve_terminates:
  "(parent d \<noteq> d \<longrightarrow> length (tail (parent d)) < length (tail d)) \<and>
   (parent d = d \<longleftrightarrow> tail d = []) \<and>
   read_toml_opts_bounded (Suc (length (tail d))) parse fs c d
     = Some (read_toml_opts parse fs c d) \<and>
   length (ancestors d) = Suc (length (tail d)) \<and>
   parent (last (ancestors d)) = last (ancestors d)"
  using parent_shorter [of d] parent_fixed_iff [of d]
    bounded_enough [of d "Suc (length (tail d))" parse fs c]
    length_ancestors [of d] last_ancestors [of d]
  by (simp add: parent_def)

theorem resolve_terminates_witness:
  "parent (posix [''a'', ''b'']) \<noteq> posix [''a'', ''b''] \<and>
   length (tail (parent (posix [''a'', ''b'']))) < length (tail (posix [''a'', ''b''])) \<and>
   parent (posix []) = posix [] \<and>
   tail (posix []) = [] \<and>
   read_toml_opts_bounded 3 sample_parse Map.empty [] (posix [''a'', ''b''])
     = Some (Inr [], [(posix [''a'', ''b''], []), (posix [''a''], []), (posix [], [])])"
proof -
  have e: "read_toml_opts sample_parse Map.empty [] (posix [''a'', ''b''])
     = (Inr [], [(posix [''a'', ''b''], []), (posix [''a''], []), (posix [], [])])"
    by (simp add: read_toml_opts.simps posix_def parent_def joinpath_def returning_def
        cache_store_def maxsize_def)
  have n: "Suc (length (tail (posix [''a'', ''b'']))) = 3" by (simp add: posix_def)
  have ne: "parent (posix [''a'', ''b'']) \<noteq> posix [''a'', ''b'']"
    by (simp add: posix_def parent_def)
  have t: "tail (posix []) = []" by (simp add: posix_def)
  from resolve_terminates [of "posix [''a'', ''b'']" sample_parse Map.empty "[]"] ne
  have less: "length (tail (parent (posix [''a'', ''b'']))) < length (tail (posix [''a'', ''b'']))"
    and run: "read_toml_opts_bounded 3 sample_parse Map.empty [] (posix [''a'', ''b''])
     = Some (Inr [], [(posix [''a'', ''b''], []), (posix [''a''], []), (posix [], [])])"
    unfolding n e by blast+
  from resolve_terminates [of "posix []" sample_parse Map.empty "[]"] t
  have root: "parent (posix []) = posix []" by blast
  show ?thesis by (intro conjI ne less root t run)
qed

end
